theory Spec2Isabelle
  imports Main "HOL-Library.Sublist"
begin

section \<open>Ripmaster: job discovery, checkpoint files and the stage passes\<close>

text \<open>
  A shallow embedding of \<^verbatim>\<open>src/Ripmaster.py\<close>: the function \<^verbatim>\<open>get_movies\<close> and the body
  of \<^verbatim>\<open>main\<close>. Python lists that are changed while a \<^verbatim>\<open>for\<close> loop walks them are
  modelled with the list and the loop's position written out, as the interpreter keeps them.
\<close>

subsection \<open>Strings\<close>

text \<open>Python's \<^verbatim>\<open>needle in hay\<close> on strings: \<^verbatim>\<open>needle\<close> occurs as a contiguous run.\<close>

fun py_in :: "string \<Rightarrow> string \<Rightarrow> bool" where
  "py_in needle [] = (needle = [])"
| "py_in needle (c # cs) = (prefix needle (c # cs) \<or> py_in needle cs)"

subsection \<open>Movies\<close>

text \<open>
  Modelled from the spec: the class \<^verbatim>\<open>Movie\<close> of the module \<^verbatim>\<open>tools\<close> is not among the
  sources. A job descriptor has an identity, its source path, and four stage flags; the
  constructor \<^verbatim>\<open>Movie(dir, d, f)\<close> yields a descriptor for the file \<^verbatim>\<open>f\<close> of the
  subdirectory \<^verbatim>\<open>d\<close> with all four flags false. The path is joined the way
  \<^verbatim>\<open>get_movies\<close> itself addresses the subdirectory.
\<close>

record movie =
  path :: string
  extracted :: bool
  converted :: bool
  encoded :: bool
  merged :: bool

definition Movie :: "string \<Rightarrow> string \<Rightarrow> string \<Rightarrow> movie" where
  "Movie dir d f =
     \<lparr>path = dir @ ''/'' @ d @ ''/'' @ f,
      extracted = False, converted = False, encoded = False, merged = False\<rparr>"

subsection \<open>Exceptions\<close>

text \<open>
  The exceptions the program can meet. \<open>UnpicklingError\<close> stands for every exception
  other than \<open>EOFError\<close> that \<^verbatim>\<open>pickle.load\<close> raises on data that is not a pickle;
  \<open>ToolError\<close> for a failing stage operation of a movie.
\<close>

datatype exn = IOError | EOFError | OSError | UnpicklingError | ToolError

subsection \<open>The directory tree and \<open>get_movies\<close>\<close>

text \<open>
  A directory is the list of its entries in the order \<^verbatim>\<open>os.listdir\<close> returns them.
  Listing something that is not a directory raises \<open>OSError\<close>.
\<close>

datatype node = File | Dir "(string \<times> node) list"

fun listdir :: "node \<Rightarrow> exn + string list" where
  "listdir (Dir entries) = Inr (map fst entries)"
| "listdir File = Inl OSError"

fun children :: "node \<Rightarrow> (string \<times> node) list" where
  "children (Dir entries) = entries"
| "children File = []"

text \<open>Listing the entry \<open>d\<close> of a directory, as \<^verbatim>\<open>os.listdir(root + "/" + d)\<close> does.\<close>

definition listdir_sub :: "(string \<times> node) list \<Rightarrow> string \<Rightarrow> exn + string list" where
  "listdir_sub entries d =
     (case map_of entries d of None \<Rightarrow> Inl OSError | Some n \<Rightarrow> listdir n)"

text \<open>The inner loop of \<^verbatim>\<open>get_movies\<close>: the files of one subdirectory.\<close>

fun file_loop :: "string \<Rightarrow> string \<Rightarrow> string list \<Rightarrow> movie list \<Rightarrow> movie list" where
  "file_loop dir d [] movieList = movieList"
| "file_loop dir d (f # files) movieList =
     (if \<not> py_in ''--converted'' f \<and> py_in ''.mkv'' f
      then file_loop dir d files (movieList @ [Movie dir d f])
      else file_loop dir d files movieList)"

text \<open>
  The outer loop walks \<^verbatim>\<open>directories\<close> by position while the body removes entries from
  that same list: \<open>i\<close> is the position of the next entry the iterator hands out, and the
  loop ends when \<open>i\<close> reaches the current length.
\<close>

function dir_loop ::
  "string \<Rightarrow> (string \<times> node) list \<Rightarrow> string list \<Rightarrow> nat \<Rightarrow> movie list \<Rightarrow> exn + movie list"
where
  "dir_loop dir entries directories i movieList =
     (if i < length directories then
        (let d = directories ! i in
         if \<not> py_in ''__'' d
         then dir_loop dir entries (remove1 d directories) (Suc i) movieList
         else (case listdir_sub entries d of
                 Inl e \<Rightarrow> Inl e
               | Inr files \<Rightarrow>
                   dir_loop dir entries directories (Suc i) (file_loop dir d files movieList)))
      else Inr movieList)"
  by pat_completeness auto
termination
proof (relation "measure (\<lambda>(dir, entries, directories, i, movieList). length directories - i)")
  show "wf (measure (\<lambda>(dir, entries, directories, i, movieList). length directories - i))"
    by simp
next
  fix dir :: string and entries :: "(string \<times> node) list" and directories :: "string list"
    and i :: nat and movieList :: "movie list" and x :: string
  assume "i < length directories" and "x = directories ! i"
  then have "x \<in> set directories" by simp
  then have "length (remove1 x directories) = length directories - 1"
    by (simp add: length_remove1)
  with \<open>i < length directories\<close>
  show "((dir, entries, remove1 x directories, Suc i, movieList),
         (dir, entries, directories, i, movieList))
        \<in> measure (\<lambda>(dir, entries, directories, i, movieList). length directories - i)"
    by simp
next
  fix dir :: string and entries :: "(string \<times> node) list" and directories :: "string list"
    and i :: nat and movieList :: "movie list" and x :: string and x2 :: "string list"
  assume "i < length directories"
  then show "((dir, entries, directories, Suc i, file_loop dir x x2 movieList),
         (dir, entries, directories, i, movieList))
        \<in> measure (\<lambda>(dir, entries, directories, i, movieList). length directories - i)"
    by simp
qed

declare dir_loop.simps [simp del]

definition get_movies :: "string \<Rightarrow> node \<Rightarrow> exn + movie list" where
  "get_movies dir root =
     (case listdir root of
        Inl e \<Rightarrow> Inl e
      | Inr directories \<Rightarrow> dir_loop dir (children root) directories 0 [])"

subsection \<open>The two checkpoint files\<close>

text \<open>
  What \<^verbatim>\<open>./movies.p\<close> and \<^verbatim>\<open>./movies.p.bak\<close> hold, as far as \<^verbatim>\<open>pickle.load\<close> can tell:
  a complete pickle of a movie list; \<open>Cut\<close>, a file that ends before the pickle does
  (empty, as \<^verbatim>\<open>open(..., "wb")\<close> leaves it, or a part of a pickle), on which the load
  raises \<open>EOFError\<close>; or \<open>Junk\<close>, bytes that are not a pickle, on which it raises
  something else. A file that does not exist is \<open>None\<close>.
\<close>

datatype content = Pickle "movie list" | Cut | Junk

datatype fname = Primary | Backup

text \<open>
  What happens to a write is decided outside the program: it completes, or the file cannot
  be opened for writing and \<open>IOError\<close> is raised with the target as it was, or the process
  is terminated after the target was opened and before the data is all there. The world
  carries the fates of the writes to come, in order; when none is left a write completes.
\<close>

datatype fate = Completes | Fails | Dies

datatype stage = Extract | Convert | Encode | Merge

text \<open>
  The trace records what has happened, in order: a stage operation invoked on a movie, a
  completed dump of the registry to the primary, a completed copy, a printed line.
\<close>

datatype event =
    Ran stage string
  | Dumped "movie list"
  | Copied fname fname
  | Printed string

record world =
  primary :: "content option"
  backup :: "content option"
  fates :: "fate list"
  trace :: "event list"

text \<open>A computation ends with a value, with an exception, or with the process gone.\<close>

datatype halt = Raise exn | Kill

type_synonym 'a io = "world \<Rightarrow> (halt + 'a) \<times> world"

definition return_io :: "'a \<Rightarrow> 'a io" where
  "return_io x w = (Inr x, w)"

definition bind_io :: "'a io \<Rightarrow> ('a \<Rightarrow> 'b io) \<Rightarrow> 'b io" where
  "bind_io m f w = (case m w of (Inl h, w') \<Rightarrow> (Inl h, w') | (Inr x, w') \<Rightarrow> f x w')"

definition lift_io :: "exn + 'a \<Rightarrow> 'a io" where
  "lift_io r w = (case r of Inl e \<Rightarrow> (Inl (Raise e), w) | Inr x \<Rightarrow> (Inr x, w))"

definition file_of :: "fname \<Rightarrow> world \<Rightarrow> content option" where
  "file_of n w = (case n of Primary \<Rightarrow> primary w | Backup \<Rightarrow> backup w)"

definition put_file :: "fname \<Rightarrow> content \<Rightarrow> world \<Rightarrow> world" where
  "put_file n c w = (case n of Primary \<Rightarrow> w\<lparr>primary := Some c\<rparr> | Backup \<Rightarrow> w\<lparr>backup := Some c\<rparr>)"

definition next_fate :: "world \<Rightarrow> fate \<times> world" where
  "next_fate w = (case fates w of [] \<Rightarrow> (Completes, w) | f # fs \<Rightarrow> (f, w\<lparr>fates := fs\<rparr>))"

definition write_file :: "fname \<Rightarrow> content \<Rightarrow> event \<Rightarrow> unit io" where
  "write_file dst c ev w =
     (case next_fate w of
        (Completes, w') \<Rightarrow> (Inr (), (put_file dst c w')\<lparr>trace := trace w' @ [ev]\<rparr>)
      | (Fails, w') \<Rightarrow> (Inl (Raise IOError), w')
      | (Dies, w') \<Rightarrow> (Inl Kill, put_file dst Cut w'))"

text \<open>\<^verbatim>\<open>copyfile(src, dst)\<close>: the source is opened for reading first.\<close>

definition copyfile :: "fname \<Rightarrow> fname \<Rightarrow> unit io" where
  "copyfile src dst w =
     (case file_of src w of
        None \<Rightarrow> (Inl (Raise IOError), w)
      | Some c \<Rightarrow> write_file dst c (Copied src dst) w)"

text \<open>\<^verbatim>\<open>with open("./movies.p", "wb") as f: pickle.dump(movies, f)\<close>\<close>

definition dump :: "movie list \<Rightarrow> unit io" where
  "dump movies = write_file Primary (Pickle movies) (Dumped movies)"

text \<open>\<^verbatim>\<open>with open("./movies.p", "rb") as f: movies = pickle.load(f)\<close>\<close>

definition load :: "movie list io" where
  "load w =
     (case primary w of
        None \<Rightarrow> (Inl (Raise IOError), w)
      | Some (Pickle movies) \<Rightarrow> (Inr movies, w)
      | Some Cut \<Rightarrow> (Inl (Raise EOFError), w)
      | Some Junk \<Rightarrow> (Inl (Raise UnpicklingError), w))"

definition print :: "string \<Rightarrow> unit io" where
  "print s w = (Inr (), w\<lparr>trace := trace w @ [Printed s]\<rparr>)"

fun print_paths :: "movie list \<Rightarrow> unit io" where
  "print_paths [] w = (Inr (), w)"
| "print_paths (entry # movies) w = print_paths movies (snd (print (path entry) w))"

subsection \<open>The stage operations of a movie\<close>

text \<open>
  Modelled from the spec: the methods \<^verbatim>\<open>extractTracks\<close>, \<^verbatim>\<open>convertTracks\<close> and
  \<^verbatim>\<open>encodeMovie\<close> of the class \<^verbatim>\<open>Movie\<close> are not among the sources. Each is an external
  operation with a success or failure outcome; the stage flag of the movie is set true only
  after the operation completes without error. Whether the operation of a stage succeeds on
  a movie is given by \<open>ext\<close>; a failure is an exception.
\<close>

type_synonym tools = "stage \<Rightarrow> string \<Rightarrow> bool"

definition invoke :: "tools \<Rightarrow> stage \<Rightarrow> movie \<Rightarrow> movie \<Rightarrow> movie io" where
  "invoke ext st m m' w =
     (if ext st (path m)
      then (Inr m', w\<lparr>trace := trace w @ [Ran st (path m)]\<rparr>)
      else (Inl (Raise ToolError), w\<lparr>trace := trace w @ [Ran st (path m)]\<rparr>))"

definition extractTracks :: "tools \<Rightarrow> movie \<Rightarrow> movie io" where
  "extractTracks ext m = invoke ext Extract m (m\<lparr>extracted := True\<rparr>)"

definition convertTracks :: "tools \<Rightarrow> movie \<Rightarrow> movie io" where
  "convertTracks ext m = invoke ext Convert m (m\<lparr>converted := True\<rparr>)"

definition encodeMovie :: "tools \<Rightarrow> movie \<Rightarrow> movie io" where
  "encodeMovie ext m = invoke ext Encode m (m\<lparr>encoded := True\<rparr>)"

subsection \<open>Merging the discovered movies into the recovered ones\<close>

text \<open>
  \<^verbatim>\<open>for raw in newMovies: if movie.path == raw.path: newMovies.remove(raw)\<close>, with the
  position of the iterator written out as in \<open>dir_loop\<close>. \<^verbatim>\<open>remove\<close> takes out the first
  entry equal to \<open>raw\<close>, which is \<open>raw\<close> itself when no two discovered movies are equal.
\<close>

function raw_loop :: "movie \<Rightarrow> movie list \<Rightarrow> nat \<Rightarrow> movie list" where
  "raw_loop movie newMovies i =
     (if i < length newMovies then
        (let raw = newMovies ! i in
         if path movie = path raw
         then raw_loop movie (remove1 raw newMovies) (Suc i)
         else raw_loop movie newMovies (Suc i))
      else newMovies)"
  by pat_completeness auto
termination
proof (relation "measure (\<lambda>(movie, newMovies, i). length newMovies - i)")
  show "wf (measure (\<lambda>(movie, newMovies, i). length newMovies - i))"
    by simp
next
  fix movie :: movie and newMovies :: "movie list" and i :: nat and x :: movie
  assume "i < length newMovies" and "x = newMovies ! i"
  then have "x \<in> set newMovies" by simp
  then have "length (remove1 x newMovies) = length newMovies - 1"
    by (simp add: length_remove1)
  with \<open>i < length newMovies\<close>
  show "((movie, remove1 x newMovies, Suc i), (movie, newMovies, i))
        \<in> measure (\<lambda>(movie, newMovies, i). length newMovies - i)"
    by simp
next
  fix movie :: movie and newMovies :: "movie list" and i :: nat
  assume "i < length newMovies"
  then show "((movie, newMovies, Suc i), (movie, newMovies, i))
        \<in> measure (\<lambda>(movie, newMovies, i). length newMovies - i)"
    by simp
qed

declare raw_loop.simps [simp del]

fun movie_loop :: "movie list \<Rightarrow> movie list \<Rightarrow> movie list" where
  "movie_loop [] newMovies = newMovies"
| "movie_loop (movie # movies) newMovies = movie_loop movies (raw_loop movie newMovies 0)"

text \<open>The registry after \<^verbatim>\<open>movies.extend(newMovies)\<close>.\<close>

definition merge_registry :: "movie list \<Rightarrow> movie list \<Rightarrow> movie list" where
  "merge_registry movies newMovies = movies @ movie_loop movies newMovies"

subsection \<open>The stage passes\<close>

text \<open>
  One pass of \<^verbatim>\<open>main\<close> over the registry, for the flag and the operation of a stage:
  \<^verbatim>\<open>for movie in movies: if not movie.flag: movie.operation(); dump; (end if) copyfile\<close>.
  The operation changes the movie where it stands in the list, so the registry that is
  dumped is \<open>seen\<close>, the movie as the operation left it, and the movies still to come.
\<close>

fun pass_over ::
  "(movie \<Rightarrow> bool) \<Rightarrow> (movie \<Rightarrow> movie io) \<Rightarrow> movie list \<Rightarrow> movie list \<Rightarrow> movie list io"
where
  "pass_over flag operation seen [] w = (Inr seen, w)"
| "pass_over flag operation seen (movie # rest) w =
     (if \<not> flag movie then
        (case operation movie w of
           (Inl h, w1) \<Rightarrow> (Inl h, w1)
         | (Inr movie', w1) \<Rightarrow>
             (case dump (seen @ movie' # rest) w1 of
                (Inl h, w2) \<Rightarrow> (Inl h, w2)
              | (Inr u, w2) \<Rightarrow>
                  (case copyfile Primary Backup w2 of
                     (Inl h, w3) \<Rightarrow> (Inl h, w3)
                   | (Inr u', w3) \<Rightarrow> pass_over flag operation (seen @ [movie']) rest w3)))
      else
        (case copyfile Primary Backup w of
           (Inl h, w3) \<Rightarrow> (Inl h, w3)
         | (Inr u, w3) \<Rightarrow> pass_over flag operation (seen @ [movie]) rest w3))"

text \<open>\<^verbatim>\<open>for movie in movies: if not movie.merged: pass\<close>\<close>

fun merge_pass :: "movie list \<Rightarrow> movie list \<Rightarrow> movie list io" where
  "merge_pass seen [] w = (Inr seen, w)"
| "merge_pass seen (movie # rest) w =
     (if \<not> merged movie
      then merge_pass (seen @ [movie]) rest w
      else merge_pass (seen @ [movie]) rest w)"

text \<open>
  The four loops of \<^verbatim>\<open>main\<close>, by stage: the flag each one tests, and the loop itself,
  from a position inside the registry (\<open>seen\<close> are the movies already passed).
\<close>

fun flag_of :: "stage \<Rightarrow> movie \<Rightarrow> bool" where
  "flag_of Extract = extracted"
| "flag_of Convert = converted"
| "flag_of Encode = encoded"
| "flag_of Merge = merged"

fun stage_loop :: "tools \<Rightarrow> stage \<Rightarrow> movie list \<Rightarrow> movie list \<Rightarrow> movie list io" where
  "stage_loop ext Extract seen todo = pass_over extracted (extractTracks ext) seen todo"
| "stage_loop ext Convert seen todo = pass_over converted (convertTracks ext) seen todo"
| "stage_loop ext Encode seen todo = pass_over encoded (encodeMovie ext) seen todo"
| "stage_loop ext Merge seen todo = merge_pass seen todo"

definition stages :: "tools \<Rightarrow> movie list \<Rightarrow> movie list io" where
  "stages ext movies =
     bind_io (stage_loop ext Extract [] movies) (\<lambda>movies.
     bind_io (stage_loop ext Convert [] movies) (\<lambda>movies.
     bind_io (stage_loop ext Encode [] movies) (\<lambda>movies.
     stage_loop ext Merge [] movies)))"

subsection \<open>\<open>main\<close>\<close>

text \<open>\<^verbatim>\<open>try: ... except\<close> for the exceptions that \<open>handles\<close> accepts.\<close>

definition catch_io :: "'a io \<Rightarrow> (exn \<Rightarrow> bool) \<Rightarrow> 'a io \<Rightarrow> 'a io" where
  "catch_io m handles handler w =
     (case m w of
        (Inl (Raise e), w') \<Rightarrow> if handles e then handler w' else (Inl (Raise e), w')
      | (Inl Kill, w') \<Rightarrow> (Inl Kill, w')
      | (Inr x, w') \<Rightarrow> (Inr x, w'))"

text \<open>\<^verbatim>\<open>try: copyfile("./movies.p.bak", "./movies.p") except IOError: pass\<close>\<close>

definition restore :: "unit io" where
  "restore = catch_io (copyfile Backup Primary) (\<lambda>e. e = IOError) (return_io ())"

text \<open>The read of the primary, with its handler for \<^verbatim>\<open>(IOError, EOFError)\<close>.\<close>

definition read_store :: "movie list io" where
  "read_store =
     catch_io load (\<lambda>e. e = IOError \<or> e = EOFError)
       (bind_io (print ''No existing movie in process found. Starting from scratch'')
          (\<lambda>u. return_io []))"

definition recover :: "movie list io" where
  "recover = bind_io restore (\<lambda>u. read_store)"

text \<open>
  \<^verbatim>\<open>with open("./movies.p", "wb") as f: pickle.dump(movies, f)\<close> and, after it,
  \<^verbatim>\<open>copyfile("./movies.p", "./movies.p.bak")\<close>.
\<close>

definition checkpoint :: "movie list \<Rightarrow> unit io" where
  "checkpoint movies = bind_io (dump movies) (\<lambda>u. copyfile Primary Backup)"

definition report :: "movie list \<Rightarrow> movie list io" where
  "report movies =
     bind_io (print []) (\<lambda>u.
     bind_io (print ''The following movies have been completed:'') (\<lambda>u.
     bind_io (print_paths movies) (\<lambda>u.
     bind_io (print []) (\<lambda>u.
     return_io movies))))"

text \<open>
  The body of \<^verbatim>\<open>main\<close>, for the working directory \<open>cwd\<close> and the tree \<open>tree\<close> found at
  \<^verbatim>\<open>cwd/toConvert/\<close>. Reading \<^verbatim>\<open>Ripmaster.ini\<close> (the class \<^verbatim>\<open>Config\<close>, not among the
  sources) comes before everything here and is left out.
\<close>

definition main :: "tools \<Rightarrow> string \<Rightarrow> node \<Rightarrow> movie list io" where
  "main ext cwd tree =
     bind_io recover (\<lambda>movies.
     bind_io (print []) (\<lambda>u.
     bind_io (print ''Found the following movies in progress:'') (\<lambda>u.
     bind_io (print_paths movies) (\<lambda>u.
     bind_io (print []) (\<lambda>u.
     bind_io (lift_io (get_movies (cwd @ ''/toConvert/'') tree)) (\<lambda>newMovies.
     bind_io (print []) (\<lambda>u.
     bind_io (print ''Total movie list after adding new movies:'') (\<lambda>u.
     bind_io (print_paths (merge_registry movies newMovies)) (\<lambda>u.
     bind_io (checkpoint (merge_registry movies newMovies)) (\<lambda>u.
     bind_io (stages ext (merge_registry movies newMovies)) (\<lambda>movies.
     report movies)))))))))))"

subsection \<open>Notions used to state the properties\<close>

text \<open>The stage operations a trace has invoked, in order.\<close>

fun invoked :: "event list \<Rightarrow> (stage \<times> string) list" where
  "invoked [] = []"
| "invoked (Ran st p # es) = (st, p) # invoked es"
| "invoked (Dumped movies # es) = invoked es"
| "invoked (Copied src dst # es) = invoked es"
| "invoked (Printed s # es) = invoked es"


text \<open>A movie with the flag of a stage set.\<close>

fun set_flag :: "stage \<Rightarrow> movie \<Rightarrow> movie" where
  "set_flag Extract m = m\<lparr>extracted := True\<rparr>"
| "set_flag Convert m = m\<lparr>converted := True\<rparr>"
| "set_flag Encode m = m\<lparr>encoded := True\<rparr>"
| "set_flag Merge m = m\<lparr>merged := True\<rparr>"


text \<open>
  In the words of the specification: a file \<^emph>\<open>has the media container extension\<close> when
  its name ends in \<^verbatim>\<open>.mkv\<close>.
\<close>

definition has_mkv_extension :: "string \<Rightarrow> bool" where
  "has_mkv_extension f = suffix ''.mkv'' f"

section \<open>Properties\<close>

subsection \<open>Auxiliary facts\<close>

lemma py_in_sublist: "py_in needle hay \<longleftrightarrow> sublist needle hay"
  by (induction hay) (simp_all add: sublist_Cons_right)

lemma file_loop_filter:
  "file_loop dir d files movieList =
     movieList @ map (Movie dir d)
       (filter (\<lambda>f. \<not> py_in ''--converted'' f \<and> py_in ''.mkv'' f) files)"
  by (induction files arbitrary: movieList) simp_all

lemma later_paths_differ:
  assumes "distinct (map path ns)" and "i < length ns" and "x \<in> set (drop (Suc i) ns)"
  shows "path x \<noteq> path (ns ! i)"
proof -
  from assms(3) obtain k where k: "k < length (drop (Suc i) ns)" "x = drop (Suc i) ns ! k"
    by (auto simp: in_set_conv_nth)
  then have x: "x = ns ! (Suc i + k)" and lt: "Suc i + k < length ns" by auto
  have "map path ns ! (Suc i + k) \<noteq> map path ns ! i"
    using assms(1,2) lt nth_eq_iff_index_eq [of "map path ns" "Suc i + k" i] by simp
  then show ?thesis using x lt assms(2) by simp
qed

lemma remove1_nth_distinct:
  "distinct ns \<Longrightarrow> i < length ns \<Longrightarrow> remove1 (ns ! i) ns = take i ns @ drop (Suc i) ns"
proof (induction ns arbitrary: i)
  case Nil then show ?case by simp
next
  case (Cons a ns)
  then show ?case by (cases i) auto
qed

lemma raw_loop_filter:
  "distinct (map path ns) \<Longrightarrow>
   raw_loop m ns i = take i ns @ filter (\<lambda>r. path r \<noteq> path m) (drop i ns)"
proof (induction m ns i rule: raw_loop.induct)
  case (1 movie newMovies i)
  show ?case
  proof (cases "i < length newMovies")
    case False
    then show ?thesis by (simp add: raw_loop.simps)
  next
    case lt: True
    let ?raw = "newMovies ! i"
    let ?P = "\<lambda>r. path r \<noteq> path movie"
    have dropi: "drop i newMovies = ?raw # drop (Suc i) newMovies"
      using lt by (simp add: Cons_nth_drop_Suc)
    show ?thesis
    proof (cases "path movie = path ?raw")
      case True
      have d: "distinct newMovies" using "1.prems" by (simp add: distinct_map)
      let ?ns' = "take i newMovies @ drop (Suc i) newMovies"
      have rm: "remove1 ?raw newMovies = ?ns'" using d lt by (rule remove1_nth_distinct)
      have keep: "filter ?P (drop (Suc i) newMovies) = drop (Suc i) newMovies"
        using later_paths_differ [OF "1.prems" lt] True by (simp add: filter_id_conv)
      have d': "distinct (map path ?ns')"
        using "1.prems" by (metis rm distinct_map distinct_remove1 inj_on_subset set_remove1_subset)
      have len: "length (take i newMovies) = i" using lt by simp
      have "set (drop (Suc i) ?ns') \<subseteq> set (drop (Suc i) newMovies)"
      proof -
        have "drop (Suc i) ?ns' = drop 1 (drop (Suc i) newMovies)"
          using len by (simp add: drop_append)
        then show ?thesis by (metis set_drop_subset)
      qed
      then have keep': "filter ?P (drop (Suc i) ?ns') = drop (Suc i) ?ns'"
        using later_paths_differ [OF "1.prems" lt] True by (auto simp: filter_id_conv)
      have "raw_loop movie newMovies i = raw_loop movie ?ns' (Suc i)"
        using lt True rm by (subst raw_loop.simps) simp
      also have "\<dots> = take (Suc i) ?ns' @ filter ?P (drop (Suc i) ?ns')"
        using "1.IH"(1) [OF lt refl True] d' rm by simp
      also have "\<dots> = take (Suc i) ?ns' @ drop (Suc i) ?ns'" by (simp only: keep')
      also have "\<dots> = ?ns'" by (rule append_take_drop_id)
      also have "\<dots> = take i newMovies @ filter ?P (drop i newMovies)"
        using dropi True keep by simp
      finally show ?thesis .
    next
      case False
      have "raw_loop movie newMovies i = raw_loop movie newMovies (Suc i)"
        using lt False by (subst raw_loop.simps) simp
      also have "\<dots> = take (Suc i) newMovies @ filter ?P (drop (Suc i) newMovies)"
        using "1.IH"(2) [OF lt refl False "1.prems"] .
      also have "\<dots> = take i newMovies @ filter ?P (drop i newMovies)"
        using dropi False lt by (simp add: take_Suc_conv_app_nth)
      finally show ?thesis .
    qed
  qed
qed

lemma movie_loop_filter:
  "distinct (map path ns) \<Longrightarrow>
   movie_loop ms ns = filter (\<lambda>r. path r \<notin> path ` set ms) ns"
proof (induction ms arbitrary: ns)
  case Nil then show ?case by simp
next
  case (Cons m ms)
  have "distinct (map path (filter (\<lambda>r. path r \<noteq> path m) ns))"
    using Cons.prems by (simp add: distinct_map_filter)
  with Cons show ?case by (simp add: raw_loop_filter)
qed

lemma invoked_append: "invoked (xs @ ys) = invoked xs @ invoked ys"
  by (induction xs rule: invoked.induct) simp_all

lemma set_flag_idem: "flag_of st m \<Longrightarrow> set_flag st m = m"
  by (cases st; cases m) simp_all

lemma stage_loop_pass:
  "st \<noteq> Merge \<Longrightarrow>
   stage_loop ext st seen todo =
     pass_over (flag_of st) (\<lambda>m. invoke ext st m (set_flag st m)) seen todo"
  by (cases st) (simp_all add: extractTracks_def [abs_def] convertTracks_def [abs_def] encodeMovie_def [abs_def])

lemma write_file_invoked:
  "write_file dst c ev w = (r, w') \<Longrightarrow> invoked [ev] = [] \<Longrightarrow> invoked (trace w') = invoked (trace w)"
  by (auto simp: write_file_def next_fate_def put_file_def invoked_append
      split: list.splits fate.splits fname.splits)

lemma dump_invoked: "dump ms w = (r, w') \<Longrightarrow> invoked (trace w') = invoked (trace w)"
  unfolding dump_def by (erule write_file_invoked) simp

lemma copyfile_invoked: "copyfile src dst w = (r, w') \<Longrightarrow> invoked (trace w') = invoked (trace w)"
  unfolding copyfile_def
  by (cases "file_of src w") (auto dest: write_file_invoked)

lemma invoke_invoked:
  "invoke ext st m m' w = (r, w') \<Longrightarrow> invoked (trace w') = invoked (trace w) @ [(st, path m)]"
  by (auto simp: invoke_def invoked_append split: if_splits)

lemma invoke_Inr: "invoke ext st m m' w = (Inr x, w') \<Longrightarrow> x = m'"
  by (auto simp: invoke_def split: if_splits)

lemma pass_over_invoked:
  assumes "pass_over (flag_of st) (\<lambda>m. invoke ext st m (set_flag st m)) seen todo w = (r, w')"
  shows "\<exists>xs. invoked (trace w') = invoked (trace w) @ map (Pair st) xs
            \<and> prefix xs (map path (filter (\<lambda>m. \<not> flag_of st m) todo))
            \<and> (\<forall>ms. r = Inr ms \<longrightarrow>
                  xs = map path (filter (\<lambda>m. \<not> flag_of st m) todo)
                \<and> ms = seen @ map (set_flag st) todo)"
  using assms
proof (induction todo arbitrary: seen w)
  case Nil
  then show ?case by auto
next
  case (Cons m rest)
  show ?case
  proof (cases "flag_of st m")
    case True
    obtain r3 w3 where c: "copyfile Primary Backup w = (r3, w3)" by force
    show ?thesis
    proof (cases r3)
      case (Inl h)
      with Cons.prems True c have "r = Inl h" "w' = w3" by auto
      with copyfile_invoked [OF c] show ?thesis by (intro exI [of _ "[]"]) simp
    next
      case (Inr u)
      with Cons.prems True c
      have "pass_over (flag_of st) (\<lambda>m. invoke ext st m (set_flag st m)) (seen @ [m]) rest w3 = (r, w')"
        by simp
      from Cons.IH [OF this] copyfile_invoked [OF c] True set_flag_idem [OF True]
      show ?thesis by auto
    qed
  next
    case False
    obtain r1 w1 where i: "invoke ext st m (set_flag st m) w = (r1, w1)" by force
    note ri = invoke_invoked [OF i]
    show ?thesis
    proof (cases r1)
      case (Inl h)
      with Cons.prems False i have "r = Inl h" "w' = w1" by auto
      with ri False show ?thesis by (intro exI [of _ "[path m]"]) simp
    next
      case (Inr m')
      with i have m': "m' = set_flag st m" by (auto dest: invoke_Inr)
      obtain r2 w2 where d: "dump (seen @ m' # rest) w1 = (r2, w2)" by force
      note rd = dump_invoked [OF d]
      show ?thesis
      proof (cases r2)
        case (Inl h)
        with Cons.prems False i Inr d have "r = Inl h" "w' = w2" by auto
        with ri rd False show ?thesis by (intro exI [of _ "[path m]"]) simp
      next
        case r2: (Inr u)
        obtain r3 w3 where c: "copyfile Primary Backup w2 = (r3, w3)" by force
        note rc = copyfile_invoked [OF c]
        show ?thesis
        proof (cases r3)
          case (Inl h)
          with Cons.prems False i Inr d r2 c have "r = Inl h" "w' = w3" by auto
          with ri rd rc False show ?thesis by (intro exI [of _ "[path m]"]) simp
        next
          case r3: (Inr u')
          with Cons.prems False i Inr d r2 c
          have "pass_over (flag_of st) (\<lambda>m. invoke ext st m (set_flag st m)) (seen @ [m']) rest w3 = (r, w')"
            by simp
          from Cons.IH [OF this] obtain xs where
            xs: "invoked (trace w') = invoked (trace w3) @ map (Pair st) xs"
              "prefix xs (map path (filter (\<lambda>m. \<not> flag_of st m) rest))"
              "\<forall>ms. r = Inr ms \<longrightarrow>
                  xs = map path (filter (\<lambda>m. \<not> flag_of st m) rest)
                \<and> ms = (seen @ [m']) @ map (set_flag st) rest"
            by blast
          show ?thesis
            using xs ri rd rc False m' by (intro exI [of _ "path m # xs"]) simp
        qed
      qed
    qed
  qed
qed








lemma merge_pass_same: "merge_pass seen movies w = (Inr (seen @ movies), w)"
  by (induction movies arbitrary: seen) simp_all

lemma print_paths_run:
  "print_paths movies w = (Inr (), w\<lparr>trace := trace w @ map Printed (map path movies)\<rparr>)"
  by (induction movies arbitrary: w) (simp_all add: print_def)

lemma report_run:
  "report movies w =
     (Inr movies,
      w\<lparr>trace := trace w @
         map Printed ([] # ''The following movies have been completed:'' #
                      map path movies @ [[]])\<rparr>)"
  by (simp add: report_def bind_io_def return_io_def print_def print_paths_run)

lemma todo_after_other_stage:
  "st \<noteq> st' \<Longrightarrow>
   map path (filter (\<lambda>m. \<not> flag_of st' m) (map (set_flag st) ms)) =
   map path (filter (\<lambda>m. \<not> flag_of st' m) ms)"
  by (induction ms) (cases st; cases st'; simp)+

lemma stage_loop_invoked:
  assumes "st \<noteq> Merge" and "stage_loop ext st [] movies w = (r, w')"
  shows "\<exists>xs. invoked (trace w') = invoked (trace w) @ map (Pair st) xs
            \<and> prefix xs (map path (filter (\<lambda>m. \<not> flag_of st m) movies))
            \<and> (\<forall>ms. r = Inr ms \<longrightarrow>
                  xs = map path (filter (\<lambda>m. \<not> flag_of st m) movies)
                \<and> ms = map (set_flag st) movies)"
  using pass_over_invoked [of st ext "[]" movies w r w'] assms
  by (simp add: stage_loop_pass)

lemma stages_invoked:
  assumes "stages ext movies w = (r, w')"
  shows "\<exists>xs ys zs.
     invoked (trace w') = invoked (trace w)
        @ map (Pair Extract) xs @ map (Pair Convert) ys @ map (Pair Encode) zs
   \<and> prefix xs (map path (filter (\<lambda>m. \<not> extracted m) movies))
   \<and> prefix ys (map path (filter (\<lambda>m. \<not> converted m) movies))
   \<and> prefix zs (map path (filter (\<lambda>m. \<not> encoded m) movies))
   \<and> (ys \<noteq> [] \<or> zs \<noteq> [] \<longrightarrow> xs = map path (filter (\<lambda>m. \<not> extracted m) movies))
   \<and> (zs \<noteq> [] \<longrightarrow> ys = map path (filter (\<lambda>m. \<not> converted m) movies))
   \<and> (\<forall>ms. r = Inr ms \<longrightarrow>
          xs = map path (filter (\<lambda>m. \<not> extracted m) movies)
        \<and> ys = map path (filter (\<lambda>m. \<not> converted m) movies)
        \<and> zs = map path (filter (\<lambda>m. \<not> encoded m) movies)
        \<and> ms = map (set_flag Encode) (map (set_flag Convert) (map (set_flag Extract) movies)))"
proof -
  obtain r1 w1 where p1: "stage_loop ext Extract [] movies w = (r1, w1)" by force
  from stage_loop_invoked [OF _ p1] obtain xs where
    xs: "invoked (trace w1) = invoked (trace w) @ map (Pair Extract) xs"
      "prefix xs (map path (filter (\<lambda>m. \<not> extracted m) movies))"
      "\<forall>ms. r1 = Inr ms \<longrightarrow> xs = map path (filter (\<lambda>m. \<not> extracted m) movies)
          \<and> ms = map (set_flag Extract) movies"
    by auto
  show ?thesis
  proof (cases r1)
    case (Inl h)
    with assms p1 have "r = Inl h" "w' = w1" by (auto simp: stages_def bind_io_def)
    with xs show ?thesis
      by (intro exI [of _ xs] exI [of _ "[]"]) simp
  next
    case (Inr ms1)
    with xs have ms1: "ms1 = map (set_flag Extract) movies"
      and xs_all: "xs = map path (filter (\<lambda>m. \<not> extracted m) movies)" by auto
    obtain r2 w2 where p2: "stage_loop ext Convert [] ms1 w1 = (r2, w2)" by force
    from stage_loop_invoked [OF _ p2] obtain ys where
      ys: "invoked (trace w2) = invoked (trace w1) @ map (Pair Convert) ys"
        "prefix ys (map path (filter (\<lambda>m. \<not> converted m) movies))"
        "\<forall>ms. r2 = Inr ms \<longrightarrow> ys = map path (filter (\<lambda>m. \<not> converted m) movies)
            \<and> ms = map (set_flag Convert) ms1"
      using todo_after_other_stage [of Extract Convert movies] by (auto simp: ms1)
    show ?thesis
    proof (cases r2)
      case (Inl h)
      with assms p1 p2 Inr have "r = Inl h" "w' = w2" by (auto simp: stages_def bind_io_def)
      with xs ys xs_all show ?thesis
        by (intro exI [of _ xs] exI [of _ ys] exI [of _ "[]"]) simp
    next
      case r2: (Inr ms2)
      with ys have ms2: "ms2 = map (set_flag Convert) ms1"
        and ys_all: "ys = map path (filter (\<lambda>m. \<not> converted m) movies)" by auto
      obtain r3 w3 where p3: "stage_loop ext Encode [] ms2 w2 = (r3, w3)" by force
      have todo3: "map path (filter (\<lambda>m. \<not> encoded m) ms2) =
          map path (filter (\<lambda>m. \<not> encoded m) movies)"
        using todo_after_other_stage [of Convert Encode ms1]
          todo_after_other_stage [of Extract Encode movies] by (simp add: ms1 ms2)
      from stage_loop_invoked [OF _ p3] obtain zs where
        zs: "invoked (trace w3) = invoked (trace w2) @ map (Pair Encode) zs"
          "prefix zs (map path (filter (\<lambda>m. \<not> encoded m) movies))"
          "\<forall>ms. r3 = Inr ms \<longrightarrow> zs = map path (filter (\<lambda>m. \<not> encoded m) movies)
              \<and> ms = map (set_flag Encode) ms2"
        using todo3 by auto
      show ?thesis
      proof (cases r3)
        case (Inl h)
        with assms p1 p2 p3 Inr r2 have "r = Inl h" "w' = w3"
          by (auto simp: stages_def bind_io_def)
        with xs ys zs xs_all ys_all show ?thesis
          by (intro exI [of _ xs] exI [of _ ys] exI [of _ zs]) simp
      next
        case r3: (Inr ms3)
        with zs have ms3: "ms3 = map (set_flag Encode) ms2"
          and zs_all: "zs = map path (filter (\<lambda>m. \<not> encoded m) movies)" by auto
        from assms p1 p2 p3 Inr r2 r3 have "r = Inr ms3" "w' = w3"
          by (auto simp: stages_def bind_io_def merge_pass_same)
        with xs ys zs xs_all ys_all zs_all ms1 ms2 ms3 show ?thesis
          by (intro exI [of _ xs] exI [of _ ys] exI [of _ zs]) simp
      qed
    qed
  qed
qed

lemma stages_result:
  "stages ext movies w = (Inr ms, w') \<Longrightarrow>
   ms = map (\<lambda>m. m\<lparr>extracted := True, converted := True, encoded := True\<rparr>) movies"
proof -
  assume "stages ext movies w = (Inr ms, w')"
  from stages_invoked [OF this]
  have "ms = map (set_flag Encode) (map (set_flag Convert) (map (set_flag Extract) movies))"
    by blast
  then show ?thesis by simp
qed


lemmas run_defs = bind_io_def return_io_def lift_io_def catch_io_def print_def
  write_file_def next_fate_def put_file_def file_of_def copyfile_def dump_def load_def
  invoke_def extractTracks_def convertTracks_def encodeMovie_def stages_def
  restore_def read_store_def recover_def checkpoint_def report_def main_def
  get_movies_def listdir_sub_def merge_registry_def Movie_def
  dir_loop.simps raw_loop.simps

subsection \<open>Job discovery\<close>

text \<open>
  C3. Discovery is to consider every immediate subdirectory whose name contains \<^verbatim>\<open>__\<close>,
  and skipping a subdirectory without the token is not to affect the others. The loop of
  \<^verbatim>\<open>get_movies\<close> removes the skipped name from the list it is walking, so the entry
  that follows it is never handed out: with the listing \<^verbatim>\<open>junk, Akira__1080\<close> the movie
  inside \<^verbatim>\<open>Akira__1080\<close> is not found, while with the two names in the other order it
  is.
\<close>

theorem get_movies_skips_entry_after_removal:
  "get_movies ''r'' (Dir [(''junk'', Dir []), (''Akira__1080'', Dir [(''a.mkv'', File)])])
     = Inr []
   \<and> get_movies ''r'' (Dir [(''Akira__1080'', Dir [(''a.mkv'', File)]), (''junk'', Dir [])])
     = Inr [Movie ''r'' ''Akira__1080'' ''a.mkv'']"
  by (simp add: get_movies_def listdir_sub_def dir_loop.simps)

text \<open>
  C8, as amended. Within a subdirectory a file becomes a candidate exactly when its name
  contains \<^verbatim>\<open>.mkv\<close> somewhere and does not contain \<^verbatim>\<open>--converted\<close>; the candidates
  keep the order of the listing.
\<close>

theorem file_loop_candidates:
  "file_loop dir d files movieList =
     movieList @ map (Movie dir d)
       (filter (\<lambda>f. sublist ''.mkv'' f \<and> \<not> sublist ''--converted'' f) files)"
  by (simp add: file_loop_filter py_in_sublist conj_commute)

text \<open>
  C8 as stated fails: a file whose name contains \<^verbatim>\<open>.mkv\<close> but does not end in it is a
  candidate all the same.
\<close>

theorem get_movies_accepts_other_extension:
  "get_movies ''r'' (Dir [(''Akira__1080'', Dir [(''a.mkv.txt'', File)])])
     = Inr [Movie ''r'' ''Akira__1080'' ''a.mkv.txt'']
   \<and> \<not> has_mkv_extension ''a.mkv.txt''"
  by (simp add: get_movies_def listdir_sub_def dir_loop.simps has_mkv_extension_def suffix_def)

subsection \<open>The registry merge\<close>

text \<open>
  C2. For a recovered registry \<open>R\<close> and a discovered list \<open>D\<close>, each with one entry per
  path, the merged registry is \<open>R\<close> itself, flags and all, followed by the discovered
  movies whose path is not in \<open>R\<close>: it has one entry per path of \<open>R\<close> and \<open>D\<close> together.
\<close>

theorem merge_registry_dedup:
  assumes "distinct (map path R)" and "distinct (map path D)"
  shows "merge_registry R D = R @ filter (\<lambda>d. path d \<notin> path ` set R) D
       \<and> distinct (map path (merge_registry R D))
       \<and> path ` set (merge_registry R D) = path ` set R \<union> path ` set D"
proof -
  have eq: "merge_registry R D = R @ filter (\<lambda>d. path d \<notin> path ` set R) D"
    using assms(2) by (simp add: merge_registry_def movie_loop_filter)
  have "distinct (map path (R @ filter (\<lambda>d. path d \<notin> path ` set R) D))"
    using assms by (auto simp: distinct_map_filter) (metis imageI)
  moreover have "path ` set (R @ filter (\<lambda>d. path d \<notin> path ` set R) D)
      = path ` set R \<union> path ` set D"
    by auto
  ultimately show ?thesis using eq by simp
qed

theorem merge_registry_dedup_witness:
  "distinct (map path
     [\<lparr>path = ''a'', extracted = True, converted = False, encoded = False, merged = False\<rparr>])
   \<and> distinct (map path
     [Movie ''r'' ''d'' ''f'',
      \<lparr>path = ''a'', extracted = False, converted = False, encoded = False, merged = False\<rparr>])
   \<and> merge_registry
        [\<lparr>path = ''a'', extracted = True, converted = False, encoded = False, merged = False\<rparr>]
        [Movie ''r'' ''d'' ''f'',
         \<lparr>path = ''a'', extracted = False, converted = False, encoded = False, merged = False\<rparr>]
      = [\<lparr>path = ''a'', extracted = True, converted = False, encoded = False, merged = False\<rparr>,
         Movie ''r'' ''d'' ''f'']"
  using merge_registry_dedup
    [of "[\<lparr>path = ''a'', extracted = True, converted = False, encoded = False,
           merged = False\<rparr>]"
        "[Movie ''r'' ''d'' ''f'',
          \<lparr>path = ''a'', extracted = False, converted = False, encoded = False,
            merged = False\<rparr>]"]
  by (simp add: Movie_def)

subsection \<open>The merge pass and the report\<close>

text \<open>
  C10. The merge pass changes nothing: it returns the registry it was given and leaves the
  world, files and trace, as it found it, so no operation is invoked and nothing is
  written. No pass sets the \<open>merged\<close> flag, so at the end of the stages every movie has
  the \<open>merged\<close> flag it started with (false, for a movie this program discovered), and
  the report that follows writes no file and invokes nothing.
\<close>

theorem merge_pass_changes_nothing:
  "stage_loop ext Merge seen movies w = (Inr (seen @ movies), w)
   \<and> (\<forall>ms w'. stages ext movies w = (Inr ms, w') \<longrightarrow> map merged ms = map merged movies)
   \<and> primary (snd (report movies w)) = primary w
   \<and> backup (snd (report movies w)) = backup w
   \<and> invoked (trace (snd (report movies w))) = invoked (trace w)"
proof -
  have "invoked (map (Printed \<circ> f) ls) = []" for f :: "movie \<Rightarrow> string" and ls
    by (induction ls) simp_all
  moreover have "map merged ms = map merged movies"
    if "stages ext movies w = (Inr ms, w')" for ms w'
    using stages_result [OF that] by simp
  ultimately show ?thesis
    by (simp add: merge_pass_same report_run invoked_append)
qed

theorem merge_pass_changes_nothing_witness:
  "stage_loop (\<lambda>st p. True) Merge []
     [\<lparr>path = ''a'', extracted = False, converted = False, encoded = False, merged = False\<rparr>]
     \<lparr>primary = None, backup = None, fates = [], trace = []\<rparr>
   = (Inr [\<lparr>path = ''a'', extracted = False, converted = False, encoded = False,
             merged = False\<rparr>],
      \<lparr>primary = None, backup = None, fates = [], trace = []\<rparr>)
   \<and> map merged (map (\<lambda>m. m\<lparr>extracted := True, converted := True, encoded := True\<rparr>)
       [\<lparr>path = ''a'', extracted = False, converted = False, encoded = False,
          merged = False\<rparr>]) = [False]
   \<and> fst (stages (\<lambda>st p. True)
       [\<lparr>path = ''a'', extracted = False, converted = False, encoded = False, merged = False\<rparr>]
       \<lparr>primary = Some (Pickle []), backup = None, fates = [], trace = []\<rparr>)
     = Inr [\<lparr>path = ''a'', extracted = True, converted = True, encoded = True,
              merged = False\<rparr>]"
  using merge_pass_changes_nothing
    [of "\<lambda>st p. True" "[]"
        "[\<lparr>path = ''a'', extracted = False, converted = False, encoded = False,
           merged = False\<rparr>]"
        "\<lparr>primary = None, backup = None, fates = [], trace = []\<rparr>"]
  by (simp add: run_defs)




subsection \<open>The checkpoint files\<close>

text \<open>
  C5, as amended. When the primary is absent, or ends before its pickle does, reading the
  store prints a notice and returns the empty registry, and the run goes on; a complete
  pickle is returned as it is. Any other failure to deserialize is not handled: the
  exception leaves the read.
\<close>

theorem read_store_empty_on_absent_or_cut:
  "(primary w = None \<or> primary w = Some Cut \<longrightarrow>
      read_store w =
        (Inr [], w\<lparr>trace := trace w @
           [Printed ''No existing movie in process found. Starting from scratch'']\<rparr>))
   \<and> (primary w = Some (Pickle movies) \<longrightarrow> read_store w = (Inr movies, w))
   \<and> (primary w = Some Junk \<longrightarrow> read_store w = (Inl (Raise UnpicklingError), w))"
  by (auto simp: read_store_def catch_io_def load_def bind_io_def return_io_def print_def)

theorem read_store_empty_on_absent_or_cut_witness:
  "read_store \<lparr>primary = None, backup = None, fates = [], trace = []\<rparr> =
     (Inr [], \<lparr>primary = None, backup = None, fates = [],
        trace = [Printed ''No existing movie in process found. Starting from scratch'']\<rparr>)
   \<and> read_store \<lparr>primary = Some Cut, backup = None, fates = [], trace = []\<rparr> =
     (Inr [], \<lparr>primary = Some Cut, backup = None, fates = [],
        trace = [Printed ''No existing movie in process found. Starting from scratch'']\<rparr>)
   \<and> read_store \<lparr>primary = Some Junk, backup = None, fates = [], trace = []\<rparr> =
     (Inl (Raise UnpicklingError),
      \<lparr>primary = Some Junk, backup = None, fates = [], trace = []\<rparr>)"
  using read_store_empty_on_absent_or_cut
      [of "\<lparr>primary = None, backup = None, fates = [], trace = []\<rparr>"]
    read_store_empty_on_absent_or_cut
      [of "\<lparr>primary = Some Cut, backup = None, fates = [], trace = []\<rparr>"]
    read_store_empty_on_absent_or_cut
      [of "\<lparr>primary = Some Junk, backup = None, fates = [], trace = []\<rparr>"]
  by simp

text \<open>
  C5 as stated fails: with no backup and a primary that is not a pickle, the run ends with
  the exception of the load.
\<close>

theorem main_stops_on_junk_primary:
  "fst (main (\<lambda>st p. True) ''c'' (Dir [(''A__1080'', Dir [(''a.mkv'', File)])])
         \<lparr>primary = Some Junk, backup = None, fates = [], trace = []\<rparr>)
     = Inl (Raise UnpicklingError)"
  by (simp add: run_defs)




text \<open>
  A process terminated while the primary is being written leaves the backup alone, and the
  recovery of the next start reads the registry of the backup.
\<close>

lemma kill_during_dump_recovers_backup:
  assumes "backup w = Some (Pickle R0)" and "fates w = [Dies]"
  shows "fst (checkpoint R1 w) = Inl Kill"
    and "primary (snd (checkpoint R1 w)) = Some Cut"
    and "fst (recover (snd (checkpoint R1 w))) = Inr R0"
  using assms by (simp_all add: run_defs)

text \<open>
  C1. A process terminated during a checkpoint write is to recover, at the next start, the
  last registry whose checkpoint write completed. In this run the first checkpoint
  completes, the movie is extracted, the registry is dumped to the primary, and the process
  is terminated while the primary is being copied to the backup. The primary then holds the
  new registry and the backup is cut; the recovery of the next start copies the cut backup
  over the primary and reads the empty registry.
\<close>

theorem kill_during_backup_copy_loses_registry:
  "fst (main (\<lambda>st p. True) ''c'' (Dir [(''A__1080'', Dir [(''a.mkv'', File)])])
     \<lparr>primary = None, backup = None, fates = [Completes, Completes, Completes, Dies],
        trace = []\<rparr>) = Inl Kill
   \<and> trace (snd (main (\<lambda>st p. True) ''c'' (Dir [(''A__1080'', Dir [(''a.mkv'', File)])])
     \<lparr>primary = None, backup = None, fates = [Completes, Completes, Completes, Dies],
        trace = []\<rparr>))
     = map Printed
          [''No existing movie in process found. Starting from scratch'', [],
           ''Found the following movies in progress:'', [], [],
           ''Total movie list after adding new movies:'', ''c/toConvert//A__1080/a.mkv'']
          @ [Dumped [Movie ''c/toConvert/'' ''A__1080'' ''a.mkv''],
             Copied Primary Backup,
             Ran Extract ''c/toConvert//A__1080/a.mkv'',
             Dumped [\<lparr>path = ''c/toConvert//A__1080/a.mkv'', extracted = True,
               converted = False, encoded = False, merged = False\<rparr>]]
   \<and> primary (snd (main (\<lambda>st p. True) ''c'' (Dir [(''A__1080'', Dir [(''a.mkv'', File)])])
     \<lparr>primary = None, backup = None, fates = [Completes, Completes, Completes, Dies],
        trace = []\<rparr>))
     = Some (Pickle [\<lparr>path = ''c/toConvert//A__1080/a.mkv'', extracted = True,
               converted = False, encoded = False, merged = False\<rparr>])
   \<and> backup (snd (main (\<lambda>st p. True) ''c'' (Dir [(''A__1080'', Dir [(''a.mkv'', File)])])
     \<lparr>primary = None, backup = None, fates = [Completes, Completes, Completes, Dies],
        trace = []\<rparr>)) = Some Cut
   \<and> fst (recover
       (snd (main (\<lambda>st p. True) ''c'' (Dir [(''A__1080'', Dir [(''a.mkv'', File)])])
         \<lparr>primary = None, backup = None, fates = [Completes, Completes, Completes, Dies],
            trace = []\<rparr>))) = Inr []"
  by (simp add: run_defs)

subsection \<open>The stage passes\<close>




text \<open>
  C7, as amended. Whatever happens during the stages, the operations they invoke come in
  three blocks: extractions, then conversions, then encodings, and never a merge
  operation. Each block runs through the movies whose flag for that stage is false, in
  registry order, and stops early only where the run stops; a conversion is invoked only
  after every movie with \<open>extracted\<close> false has had its extraction invoked, an encoding
  only after every movie with \<open>converted\<close> false has had its conversion invoked. When
  the stages return, each block is complete.
\<close>

theorem stages_run_in_order:
  "\<exists>xs ys zs.
     invoked (trace (snd (stages ext movies w))) = invoked (trace w)
        @ map (Pair Extract) xs @ map (Pair Convert) ys @ map (Pair Encode) zs
   \<and> prefix xs (map path (filter (\<lambda>m. \<not> extracted m) movies))
   \<and> prefix ys (map path (filter (\<lambda>m. \<not> converted m) movies))
   \<and> prefix zs (map path (filter (\<lambda>m. \<not> encoded m) movies))
   \<and> (ys \<noteq> [] \<or> zs \<noteq> [] \<longrightarrow> xs = map path (filter (\<lambda>m. \<not> extracted m) movies))
   \<and> (zs \<noteq> [] \<longrightarrow> ys = map path (filter (\<lambda>m. \<not> converted m) movies))
   \<and> (\<forall>ms. fst (stages ext movies w) = Inr ms \<longrightarrow>
          xs = map path (filter (\<lambda>m. \<not> extracted m) movies)
        \<and> ys = map path (filter (\<lambda>m. \<not> converted m) movies)
        \<and> zs = map path (filter (\<lambda>m. \<not> encoded m) movies))"
proof -
  obtain r w' where run: "stages ext movies w = (r, w')" by force
  have "\<exists>xs ys zs.
     invoked (trace w') = invoked (trace w)
        @ map (Pair Extract) xs @ map (Pair Convert) ys @ map (Pair Encode) zs
   \<and> prefix xs (map path (filter (\<lambda>m. \<not> extracted m) movies))
   \<and> prefix ys (map path (filter (\<lambda>m. \<not> converted m) movies))
   \<and> prefix zs (map path (filter (\<lambda>m. \<not> encoded m) movies))
   \<and> (ys \<noteq> [] \<or> zs \<noteq> [] \<longrightarrow> xs = map path (filter (\<lambda>m. \<not> extracted m) movies))
   \<and> (zs \<noteq> [] \<longrightarrow> ys = map path (filter (\<lambda>m. \<not> converted m) movies))
   \<and> (\<forall>ms. r = Inr ms \<longrightarrow>
          xs = map path (filter (\<lambda>m. \<not> extracted m) movies)
        \<and> ys = map path (filter (\<lambda>m. \<not> converted m) movies)
        \<and> zs = map path (filter (\<lambda>m. \<not> encoded m) movies))"
    using stages_invoked [OF run]
    apply (elim exE conjE)
    subgoal for xs ys zs
      apply (rule exI [of _ xs], rule exI [of _ ys], rule exI [of _ zs])
      apply (intro conjI allI impI)
              apply assumption+
        apply blast+
      done
    done
  then show ?thesis by (simp only: run fst_conv snd_conv)
qed

theorem stages_run_in_order_witness:
  "invoked (trace (snd (stages (\<lambda>st p. st \<noteq> Encode \<or> p \<noteq> ''b'')
     [\<lparr>path = ''a'', extracted = False, converted = True, encoded = False, merged = False\<rparr>,
      \<lparr>path = ''b'', extracted = False, converted = False, encoded = False, merged = False\<rparr>]
     \<lparr>primary = Some (Pickle []), backup = None, fates = [], trace = []\<rparr>)))
   = [(Extract, ''a''), (Extract, ''b''), (Convert, ''b''), (Encode, ''a''), (Encode, ''b'')]
   \<and> fst (stages (\<lambda>st p. st \<noteq> Encode \<or> p \<noteq> ''b'')
     [\<lparr>path = ''a'', extracted = False, converted = True, encoded = False, merged = False\<rparr>,
      \<lparr>path = ''b'', extracted = False, converted = False, encoded = False, merged = False\<rparr>]
     \<lparr>primary = Some (Pickle []), backup = None, fates = [], trace = []\<rparr>)
   = Inl (Raise ToolError)"
  using stages_run_in_order
    [of "\<lambda>st p. st \<noteq> Encode \<or> p \<noteq> ''b''"
        "[\<lparr>path = ''a'', extracted = False, converted = True, encoded = False,
            merged = False\<rparr>,
          \<lparr>path = ''b'', extracted = False, converted = False, encoded = False,
            merged = False\<rparr>]"
        "\<lparr>primary = Some (Pickle []), backup = None, fates = [], trace = []\<rparr>"]
  by (simp add: run_defs)

text \<open>
  C7 as stated fails for the merge stage: a movie whose \<open>merged\<close> flag is false goes through
  the whole run without a merge operation being invoked on it.
\<close>

theorem merge_operation_never_invoked:
  "\<not> merged \<lparr>path = ''a'', extracted = False, converted = False, encoded = False,
       merged = False\<rparr>
   \<and> fst (stages (\<lambda>st p. True)
     [\<lparr>path = ''a'', extracted = False, converted = False, encoded = False, merged = False\<rparr>]
     \<lparr>primary = Some (Pickle []), backup = None, fates = [], trace = []\<rparr>)
   = Inr [\<lparr>path = ''a'', extracted = True, converted = True, encoded = True,
            merged = False\<rparr>]
   \<and> invoked (trace (snd (stages (\<lambda>st p. True)
     [\<lparr>path = ''a'', extracted = False, converted = False, encoded = False, merged = False\<rparr>]
     \<lparr>primary = Some (Pickle []), backup = None, fates = [], trace = []\<rparr>)))
   = [(Extract, ''a''), (Convert, ''a''), (Encode, ''a'')]"
  by (simp add: run_defs)

end
